theory Spec2Isabelle
  imports Main "HOL-Library.Word"
begin

section \<open>The writesplitter package: a file sink that rotates its output file\<close>

text \<open>
  The package has one type, \<open>WriteSplitter\<close>, two constructors, the methods \<open>Write\<close>,
  \<open>Close\<close> and \<open>create\<close>, and the function \<open>CheckDir\<close>. Every effect of the code
  goes through Go's standard library (\<open>os.Create\<close>, \<open>(*os.File).Write\<close>,
  \<open>(*os.File).Close\<close>, \<open>os.Stat\<close>, \<open>time.Now\<close>, \<open>filepath.Clean\<close>,
  \<open>filepath.Join\<close>). The library is modelled first, as a small \<open>world\<close> that is passed
  through every call; the package follows, function by function.
\<close>

subsection \<open>Values\<close>

text \<open>Go's \<open>int\<close> on a 64-bit platform: \<open>+\<close> wraps, comparisons are signed.\<close>

type_synonym go_int = "64 word"

type_synonym byte = "8 word"

text \<open>The error numbers of the operating system that the library wraps.\<close>

datatype errno = ENOENT | EACCES | EPERM | ENOTDIR | EEXIST | EIO | ENOSPC

text \<open>
  Go's \<open>error\<close> values that can occur here: the two sentinels of the package
  (\<open>ErrNotAFile\<close>, \<open>ErrNotADir\<close>), the sentinels \<open>os.ErrInvalid\<close> (a method called on
  a nil \<open>*os.File\<close>) and \<open>os.ErrClosed\<close> (a method called on a closed file), and an
  operating system error wrapped in a \<open>*PathError\<close>. \<open>None\<close> of type
  \<open>error option\<close> is Go's nil error.
\<close>

datatype error = ErrNotAFile | ErrNotADir | ErrInvalid | ErrClosed | PathError errno

subsection \<open>The standard library\<close>

subsubsection \<open>filepath.Clean and filepath.Join (Unix)\<close>

text \<open>The path elements between the separators.\<close>

fun split_sep :: "string \<Rightarrow> string list" where
  "split_sep [] = [[]]"
| "split_sep (c # cs) =
     (if c = CHR ''/'' then [] # split_sep cs
      else (case split_sep cs of [] \<Rightarrow> [[c]] | x # xs \<Rightarrow> (c # x) # xs))"

fun join_sep :: "string list \<Rightarrow> string" where
  "join_sep [] = []"
| "join_sep [x] = x"
| "join_sep (x # y # ys) = x @ ''/'' @ join_sep (y # ys)"

text \<open>
  One element of the path against the elements kept so far (innermost first): empty
  elements and \<open>.\<close> are dropped, \<open>..\<close> removes the element before it, is dropped at
  the root, and is kept at the start of a relative path.
\<close>

definition clean_step :: "bool \<Rightarrow> string list \<Rightarrow> string \<Rightarrow> string list" where
  "clean_step rooted kept c =
     (if c = [] then kept
      else if c = ''.'' then kept
      else if c = ''..'' then
        (case kept of
           [] \<Rightarrow> (if rooted then [] else [''..''])
         | prev # older \<Rightarrow> (if prev = ''..'' then ''..'' # kept else older))
      else c # kept)"

definition is_rooted :: "string \<Rightarrow> bool" where
  "is_rooted path = (case path of [] \<Rightarrow> False | c # _ \<Rightarrow> c = CHR ''/'')"

text \<open>\<open>filepath.Clean\<close>: the shortest equivalent path; the empty result is \<open>.\<close>.\<close>

definition Clean :: "string \<Rightarrow> string" where
  "Clean path =
     (let rooted = is_rooted path;
          kept = foldl (clean_step rooted) [] (split_sep path);
          out = (if rooted then ''/'' else []) @ join_sep (rev kept)
      in if out = [] then ''.'' else out)"

text \<open>\<open>filepath.Join\<close> of two elements: empty elements are ignored, the result is cleaned.\<close>

definition Join :: "string \<Rightarrow> string \<Rightarrow> string" where
  "Join a b =
     (if a = [] then (if b = [] then [] else Clean b)
      else if b = [] then Clean a
      else Clean (a @ ''/'' @ b))"

subsubsection \<open>Files\<close>

text \<open>
  A file obtained from \<open>os.Create\<close>: its name, the bytes written through it, and whether
  \<open>Close\<close> has been called on it. A \<open>*os.File\<close> is the position of the file in the
  table \<open>files\<close> of the world, in the order of creation; nil is \<open>None\<close>. Every
  successful \<open>os.Create\<close> adds an entry, also for a name that has been used before
  (the truncation of the older file of that name is not modelled).
\<close>

record os_file =
  fname :: string
  content :: "byte list"
  is_closed :: bool

text \<open>
  The world: the table of files created so far, and what the environment will answer:
  the texts of the coming \<open>time.Now().Format(time.RFC3339Nano)\<close> calls, and the faults
  of the coming \<open>os.Create\<close>, \<open>Write\<close> and \<open>Close\<close> system calls (\<open>None\<close>: no fault).
  A write fault \<open>(k, e)\<close> lets at most \<open>k\<close> bytes through before the error \<open>e\<close>.
  An exhausted list answers with its default: no fault, the empty text.
\<close>

record world =
  files :: "os_file list"
  clock :: "string list"
  create_faults :: "errno option list"
  write_faults :: "(nat \<times> errno) option list"
  close_faults :: "errno option list"

fun next_reply :: "'a \<Rightarrow> 'a list \<Rightarrow> 'a \<times> 'a list" where
  "next_reply d [] = (d, [])"
| "next_reply d (x # xs) = (x, xs)"

definition time_Now_Format :: "world \<Rightarrow> string \<times> world" where
  "time_Now_Format w =
     (case next_reply [] (clock w) of (t, rest) \<Rightarrow> (t, w\<lparr>clock := rest\<rparr>))"

text \<open>\<open>os.Create\<close>: the new file and nil, or nil and the error.\<close>

definition os_Create :: "string \<Rightarrow> world \<Rightarrow> (nat option \<times> error option) \<times> world" where
  "os_Create name w =
     (case next_reply None (create_faults w) of
        (Some en, rest) \<Rightarrow> ((None, Some (PathError en)), w\<lparr>create_faults := rest\<rparr>)
      | (None, rest) \<Rightarrow>
          ((Some (length (files w)), None),
           w\<lparr>files := files w @ [\<lparr>fname = name, content = [], is_closed = False\<rparr>],
             create_faults := rest\<rparr>))"

text \<open>
  \<open>(*os.File).Write\<close>: \<open>os.ErrInvalid\<close> on nil, \<open>os.ErrClosed\<close> on a closed file
  (nothing is written in either case), otherwise the number of bytes written and the
  error of the system call.
\<close>

definition file_Write :: "nat option \<Rightarrow> byte list \<Rightarrow> world \<Rightarrow> (nat \<times> error option) \<times> world" where
  "file_Write f p w =
     (case f of
        None \<Rightarrow> ((0, Some ErrInvalid), w)
      | Some h \<Rightarrow>
          if length (files w) \<le> h then ((0, Some ErrInvalid), w)
          else if is_closed (files w ! h) then ((0, Some ErrClosed), w)
          else
            (case next_reply None (write_faults w) of
               (None, rest) \<Rightarrow>
                 ((length p, None),
                  w\<lparr>files := (files w)[h := (files w ! h)\<lparr>content := content (files w ! h) @ p\<rparr>],
                    write_faults := rest\<rparr>)
             | (Some (k, en), rest) \<Rightarrow>
                 ((min k (length p), Some (PathError en)),
                  w\<lparr>files := (files w)[h := (files w ! h)
                        \<lparr>content := content (files w ! h) @ take (min k (length p)) p\<rparr>],
                    write_faults := rest\<rparr>)))"

text \<open>
  \<open>(*os.File).Close\<close>: \<open>os.ErrInvalid\<close> on nil, \<open>os.ErrClosed\<close> when the file has been
  closed before; otherwise the file is closed, also when the system call reports an error.
\<close>

definition file_Close :: "nat option \<Rightarrow> world \<Rightarrow> error option \<times> world" where
  "file_Close f w =
     (case f of
        None \<Rightarrow> (Some ErrInvalid, w)
      | Some h \<Rightarrow>
          if length (files w) \<le> h then (Some ErrInvalid, w)
          else if is_closed (files w ! h) then (Some ErrClosed, w)
          else
            (case next_reply None (close_faults w) of
               (r, rest) \<Rightarrow>
                 (map_option PathError r,
                  w\<lparr>files := (files w)[h := (files w ! h)\<lparr>is_closed := True\<rparr>],
                    close_faults := rest\<rparr>)))"

subsubsection \<open>os.Stat\<close>

text \<open>
  What \<open>os.Stat\<close> finds at a path: an error number, or the file information, of which
  the code reads \<open>IsDir\<close> only. \<open>os.Stat\<close> returns the information and a nil error,
  or a nil information and the error.
\<close>

record FileInfo =
  IsDir :: bool

type_synonym filesystem = "string \<Rightarrow> errno + FileInfo"

definition os_Stat :: "filesystem \<Rightarrow> string \<Rightarrow> FileInfo option \<times> error option" where
  "os_Stat fs path =
     (case fs path of Inl en \<Rightarrow> (None, Some (PathError en)) | Inr fi \<Rightarrow> (Some fi, None))"

definition os_IsNotExist :: "error option \<Rightarrow> bool" where
  "os_IsNotExist e = (e = Some (PathError ENOENT))"

definition os_IsPermission :: "error option \<Rightarrow> bool" where
  "os_IsPermission e = (e = Some (PathError EACCES) \<or> e = Some (PathError EPERM))"

subsection \<open>The package\<close>

record WriteSplitter =
  Limit :: go_int
  Dir :: string
  Prefix :: string
  Bytes :: bool
  numBytes :: go_int
  numLines :: go_int
  handle :: "nat option"

definition LineSplitter :: "go_int \<Rightarrow> string \<Rightarrow> string \<Rightarrow> WriteSplitter" where
  "LineSplitter limit dir prefix =
     \<lparr>Limit = limit, Dir = Clean dir, Prefix = Clean prefix, Bytes = False,
      numBytes = 0, numLines = 0, handle = None\<rparr>"

definition ByteSplitter :: "go_int \<Rightarrow> string \<Rightarrow> string \<Rightarrow> WriteSplitter" where
  "ByteSplitter limit dir prefix =
     \<lparr>Limit = limit, Dir = Clean dir, Prefix = Clean prefix, Bytes = True,
      numBytes = 0, numLines = 0, handle = None\<rparr>"

text \<open>\<open>Close\<close>: the counters are reset, the file is closed, the field \<open>handle\<close> is kept.\<close>

definition Close :: "WriteSplitter \<Rightarrow> world \<Rightarrow> error option \<times> WriteSplitter \<times> world" where
  "Close ws w =
     (case handle ws of
        Some h \<Rightarrow>
          (case file_Close (Some h) w of
             (r, w1) \<Rightarrow> (r, ws\<lparr>numLines := 0, numBytes := 0\<rparr>, w1))
      | None \<Rightarrow> (Some ErrNotAFile, ws, w))"

definition create :: "WriteSplitter \<Rightarrow> world \<Rightarrow> error option \<times> WriteSplitter \<times> world" where
  "create ws w =
     (let ws1 = (if Dir ws = ''.'' then ws\<lparr>Dir := []\<rparr> else ws);
          ws2 = (if Prefix ws1 = ''.'' then ws1\<lparr>Prefix := []\<rparr> else ws1)
      in case time_Now_Format w of
           (stamp, w1) \<Rightarrow>
             (case os_Create (Join (Dir ws2) (Prefix ws2 @ stamp)) w1 of
                ((f, e), w2) \<Rightarrow>
                  (e, ws2\<lparr>handle := (if e = None then f else None)\<rparr>, w2)))"

text \<open>
  The guard of the \<open>switch\<close> in \<open>Write\<close>: the first case falls through into the body of
  the second, so the body runs when either condition holds.
\<close>

definition rotation_due :: "WriteSplitter \<Rightarrow> bool" where
  "rotation_due ws =
     ((0 < sint (Limit ws) \<and> Bytes ws \<and> sint (Limit ws) \<le> sint (numBytes ws))
      \<or> (0 < sint (Limit ws) \<and> sint (Limit ws) \<le> sint (numLines ws)))"

text \<open>
  Lines 72 to 82 of \<open>Write\<close>: a file is created when there is none, and the
  \<open>switch\<close> closes the file and creates the next one. The result is the error \<open>e\<close>
  that line 84 tests.
\<close>

definition Write_prepare :: "WriteSplitter \<Rightarrow> world \<Rightarrow> error option \<times> WriteSplitter \<times> world" where
  "Write_prepare ws w =
     (case (if handle ws = None then create ws w else (None, ws, w)) of
        (e1, ws1, w1) \<Rightarrow>
          if rotation_due ws1
          then (case Close ws1 w1 of (c, ws2, w2) \<Rightarrow> create ws2 w2)
          else (e1, ws1, w1))"

definition Write ::
  "WriteSplitter \<Rightarrow> byte list \<Rightarrow> world \<Rightarrow> (nat \<times> error option) \<times> WriteSplitter \<times> world" where
  "Write ws p w =
     (case Write_prepare ws w of
        (Some err, ws3, w3) \<Rightarrow> ((0, Some err), ws3, w3)
      | (None, ws3, w3) \<Rightarrow>
          (case file_Write (handle ws3) p w3 of
             ((n, ew), w4) \<Rightarrow>
               ((n, ew),
                ws3\<lparr>numLines := numLines ws3 + 1,
                    numBytes := numBytes ws3 + word_of_nat n\<rparr>,
                w4)))"

text \<open>
  \<open>CheckDir\<close> either returns an error value or panics: \<open>stat.IsDir()\<close> on the nil
  information that \<open>os.Stat\<close> returns with an error is a nil dereference. The three
  operands of \<open>||\<close> are evaluated from left to right, each only when those before it
  are false.
\<close>

datatype 'a outcome = Panic | Return 'a

definition CheckDir :: "filesystem \<Rightarrow> string \<Rightarrow> error option outcome" where
  "CheckDir fs dir =
     (case os_Stat fs (Clean dir) of
        (stat, e) \<Rightarrow>
          if os_IsNotExist e then Return (Some ErrNotADir)
          else
            (case stat of
               None \<Rightarrow> Panic
             | Some fi \<Rightarrow>
                 if \<not> IsDir fi then Return (Some ErrNotADir)
                 else if os_IsPermission e then Return (Some ErrNotADir)
                 else Return None))"

subsection \<open>Callers\<close>

text \<open>A caller that writes the payloads of a list in order, whatever each call returns.\<close>

fun Writes :: "byte list list \<Rightarrow> WriteSplitter \<Rightarrow> world \<Rightarrow> WriteSplitter \<times> world" where
  "Writes [] ws w = (ws, w)"
| "Writes (p # ps) ws w = (case Write ws p w of (r, ws1, w1) \<Rightarrow> Writes ps ws1 w1)"

text \<open>
  The sinks a caller outside the package can hold: one made by a constructor, then used
  through \<open>Write\<close> and \<open>Close\<close> in any world, its exported fields assigned at will.
  The fields \<open>numBytes\<close>, \<open>numLines\<close> and \<open>handle\<close> are not exported.
\<close>

inductive reachable :: "WriteSplitter \<Rightarrow> bool" where
  reach_LineSplitter: "reachable (LineSplitter limit dir prefix)"
| reach_ByteSplitter: "reachable (ByteSplitter limit dir prefix)"
| reach_Write: "reachable ws \<Longrightarrow> Write ws p w = (r, ws1, w1) \<Longrightarrow> reachable ws1"
| reach_Close: "reachable ws \<Longrightarrow> Close ws w = (r, ws1, w1) \<Longrightarrow> reachable ws1"
| reach_assign:
    "reachable ws \<Longrightarrow> reachable (ws\<lparr>Limit := limit, Dir := dir, Prefix := prefix, Bytes := b\<rparr>)"

text \<open>A world with nothing in it yet, three clock readings ahead, and no fault.\<close>

definition fresh_world :: world where
  "fresh_world =
     \<lparr>files = [],
      clock = [''2024-05-01T10:00:00.000000001Z'', ''2024-05-01T10:00:00.000000002Z'',
               ''2024-05-01T10:00:00.000000003Z''],
      create_faults = [], write_faults = [], close_faults = []\<rparr>"

section \<open>Properties\<close>

subsection \<open>The library calls\<close>

lemma os_Create_cases:
  "os_Create name w = ((f, e), w1) \<Longrightarrow>
     (e = None \<and> f = Some (length (files w))
        \<and> files w1 = files w @ [\<lparr>fname = name, content = [], is_closed = False\<rparr>])
     \<or> (e \<noteq> None \<and> f = None \<and> files w1 = files w)"
  by (cases "create_faults w"; auto simp: os_Create_def split: option.splits)

lemma os_Create_scripts:
  "os_Create name w = ((f, e), w1) \<Longrightarrow>
     write_faults w1 = write_faults w \<and> close_faults w1 = close_faults w \<and> clock w1 = clock w"
  by (cases "create_faults w"; auto simp: os_Create_def split: option.splits)

lemma create_fields:
  "create ws w = (e, ws1, w1) \<Longrightarrow>
     Limit ws1 = Limit ws \<and> Bytes ws1 = Bytes ws
     \<and> numLines ws1 = numLines ws \<and> numBytes ws1 = numBytes ws"
  by (auto simp: create_def Let_def split: prod.splits if_splits)

lemma create_cases:
  "create ws w = (e, ws1, w1) \<Longrightarrow>
     (e = None \<and> handle ws1 = Some (length (files w))
        \<and> (\<exists>name. files w1 = files w @ [\<lparr>fname = name, content = [], is_closed = False\<rparr>]))
     \<or> (e \<noteq> None \<and> handle ws1 = None \<and> files w1 = files w)"
  apply (simp add: create_def Let_def time_Now_Format_def split: prod.splits)
  apply (auto dest!: os_Create_cases)
  done

lemma create_write_faults:
  "create ws w = (e, ws1, w1) \<Longrightarrow> write_faults w1 = write_faults w \<and> close_faults w1 = close_faults w"
  apply (simp add: create_def Let_def time_Now_Format_def split: prod.splits)
  apply (auto dest!: os_Create_scripts)
  done

lemma rotation_due_cong:
  "Limit a = Limit b \<Longrightarrow> Bytes a = Bytes b \<Longrightarrow> numLines a = numLines b
     \<Longrightarrow> numBytes a = numBytes b \<Longrightarrow> rotation_due a = rotation_due b"
  by (simp add: rotation_due_def)

lemma rotation_due_zero:
  "numLines ws = 0 \<Longrightarrow> numBytes ws = 0 \<Longrightarrow> \<not> rotation_due ws"
  by (auto simp: rotation_due_def)

lemma rotation_due_limit:
  "sint (Limit ws) \<le> 0 \<Longrightarrow> \<not> rotation_due ws"
  by (auto simp: rotation_due_def)

lemma map_update_same:
  "i < length xs \<Longrightarrow> f x = f (xs ! i) \<Longrightarrow> map f (xs[i := x]) = map f xs"
  by (induction xs arbitrary: i) (auto split: nat.splits simp: nth_Cons')

lemma file_Write_files:
  "file_Write f p w = ((n, e), w1) \<Longrightarrow>
     length (files w1) = length (files w)
     \<and> map fname (files w1) = map fname (files w)
     \<and> map is_closed (files w1) = map is_closed (files w)
     \<and> n \<le> length p
     \<and> create_faults w1 = create_faults w \<and> close_faults w1 = close_faults w \<and> clock w1 = clock w"
  apply (cases "write_faults w")
  apply (auto simp: file_Write_def map_update_same split: option.splits if_splits prod.splits)
  done

lemma file_Write_content:
  "file_Write (Some h) p w = ((n, e), w1) \<Longrightarrow> h < length (files w) \<Longrightarrow>
     content (files w1 ! h) = content (files w ! h) @ take n p
     \<and> (\<forall>i. i \<noteq> h \<longrightarrow> files w1 ! i = files w ! i)"
  apply (cases "write_faults w")
  apply (auto simp: file_Write_def split: option.splits if_splits prod.splits)
  done

lemma file_Write_closed:
  "h < length (files w) \<Longrightarrow> is_closed (files w ! h) \<Longrightarrow>
     file_Write (Some h) p w = ((0, Some ErrClosed), w)"
  by (simp add: file_Write_def)

lemma file_Write_open:
  "h < length (files w) \<Longrightarrow> \<not> is_closed (files w ! h) \<Longrightarrow>
     fst (next_reply None (write_faults w)) = None \<Longrightarrow>
     file_Write (Some h) p w =
       ((length p, None),
        w\<lparr>files := (files w)[h := (files w ! h)\<lparr>content := content (files w ! h) @ p\<rparr>],
          write_faults := snd (next_reply None (write_faults w))\<rparr>)"
  by (cases "write_faults w") (auto simp: file_Write_def split: option.splits prod.splits)

lemma file_Close_files:
  "file_Close f w = (r, w1) \<Longrightarrow>
     length (files w1) = length (files w)
     \<and> map fname (files w1) = map fname (files w)
     \<and> map content (files w1) = map content (files w)
     \<and> create_faults w1 = create_faults w \<and> write_faults w1 = write_faults w \<and> clock w1 = clock w"
  apply (cases "close_faults w")
  apply (auto simp: file_Close_def map_update_same split: option.splits if_splits prod.splits)
  done

lemma file_Close_closed:
  "file_Close (Some h) w = (r, w1) \<Longrightarrow> h < length (files w) \<Longrightarrow>
     is_closed (files w1 ! h) \<and> (\<forall>i. i \<noteq> h \<longrightarrow> files w1 ! i = files w ! i)"
  apply (cases "close_faults w")
  apply (auto simp: file_Close_def split: option.splits if_splits prod.splits)
  done

lemma Close_cases:
  "Close ws w = (r, ws1, w1) \<Longrightarrow>
     (handle ws = None \<and> r = Some ErrNotAFile \<and> ws1 = ws \<and> w1 = w)
     \<or> (\<exists>h. handle ws = Some h \<and> file_Close (Some h) w = (r, w1)
            \<and> ws1 = ws\<lparr>numLines := 0, numBytes := 0\<rparr>)"
  by (auto simp: Close_def split: option.splits prod.splits)

lemma Write_prepare_ok_handle:
  "Write_prepare ws w = (None, ws3, w3) \<Longrightarrow> handle ws3 \<noteq> None"
  by (auto simp: Write_prepare_def split: if_splits prod.splits dest: create_cases)

lemma Write_prepare_fields:
  "Write_prepare ws w = (e, ws3, w3) \<Longrightarrow> Limit ws3 = Limit ws \<and> Bytes ws3 = Bytes ws"
  by (auto simp: Write_prepare_def Close_def split: if_splits prod.splits option.splits dest!: create_fields)

lemma Write_prepare_inv:
  assumes "Write_prepare ws w = (e, ws3, w3)"
    and "handle ws = None \<longrightarrow> numLines ws = 0 \<and> numBytes ws = 0"
    and "handle ws3 = None"
  shows "numLines ws3 = 0 \<and> numBytes ws3 = 0"
  using assms
  by (auto simp: Write_prepare_def Close_def split: if_splits prod.splits option.splits
      dest!: create_fields)

subsection \<open>The stages of Write, and the sinks a caller can reach\<close>

lemma create_rotation_due:
  "create ws w = (e, ws1, w1) \<Longrightarrow> rotation_due ws1 = rotation_due ws"
  by (drule create_fields) (simp add: rotation_due_def)

lemma Write_prepare_counters:
  assumes "Write_prepare ws w = (e, ws3, w3)"
  shows "(\<not> rotation_due ws \<longrightarrow> numLines ws3 = numLines ws \<and> numBytes ws3 = numBytes ws)
       \<and> (rotation_due ws \<and> handle ws \<noteq> None \<longrightarrow> numLines ws3 = 0 \<and> numBytes ws3 = 0)"
  using assms
  by (auto simp: Write_prepare_def Close_def split: if_splits prod.splits option.splits
      dest: create_fields create_rotation_due)

lemma Write_prepare_open:
  "handle ws = Some h \<Longrightarrow> \<not> rotation_due ws \<Longrightarrow> Write_prepare ws w = (None, ws, w)"
  by (simp add: Write_prepare_def)

lemma reachable_counters:
  "reachable ws \<Longrightarrow> handle ws = None \<Longrightarrow> numLines ws = 0 \<and> numBytes ws = 0"
proof (induction rule: reachable.induct)
  case (reach_Write ws p w r ws1 w1)
  obtain e ws3 w3 where pr: "Write_prepare ws w = (e, ws3, w3)"
    by (cases "Write_prepare ws w") auto
  show ?case
  proof (cases e)
    case None
    with pr have "handle ws3 \<noteq> None" by (auto dest: Write_prepare_ok_handle)
    with pr None reach_Write.hyps(2) reach_Write.prems show ?thesis
      by (auto simp: Write_def split: prod.splits)
  next
    case (Some err)
    with pr reach_Write.hyps(2) have "ws1 = ws3" by (simp add: Write_def)
    with pr reach_Write.IH reach_Write.prems show ?thesis
      using Write_prepare_inv [of ws w e ws3 w3] by simp
  qed
next
  case (reach_Close ws w r ws1 w1)
  then show ?case by (auto dest!: Close_cases)
qed (simp_all add: LineSplitter_def ByteSplitter_def)

subsection \<open>Close and the write after it\<close>

lemma Write_on_closed_handle:
  assumes "handle ws = Some h" and "h < length (files w)" and "is_closed (files w ! h)"
    and "\<not> rotation_due ws"
  shows "Write ws p w = ((0, Some ErrClosed), ws\<lparr>numLines := numLines ws + 1, numBytes := numBytes ws\<rparr>, w)"
  using assms by (simp add: Write_def Write_prepare_open file_Write_closed)

lemma create_ok_world:
  assumes "create ws w = (None, ws1, w1)"
  shows "handle ws1 = Some (length (files w)) \<and> length (files w1) = Suc (length (files w))
       \<and> \<not> is_closed (files w1 ! length (files w))
       \<and> content (files w1 ! length (files w)) = []
       \<and> write_faults w1 = write_faults w"
  using create_cases [OF assms] create_write_faults [OF assms] by auto

subsection \<open>Creation, and sequences of writes\<close>

lemma reachable_Writes:
  "reachable ws \<Longrightarrow> Writes ps ws w = (ws1, w1) \<Longrightarrow> reachable ws1"
proof (induction ps arbitrary: ws w)
  case Nil
  then show ?case by simp
next
  case (Cons p ps)
  obtain r wsa wa where wr: "Write ws p w = (r, wsa, wa)"
    by (cases "Write ws p w") auto
  with Cons.prems(1) have "reachable wsa" by (rule reach_Write)
  moreover from wr Cons.prems(2) have "Writes ps wsa wa = (ws1, w1)" by simp
  ultimately show ?case by (rule Cons.IH)
qed

lemma Write_prepare_lazy:
  assumes "reachable ws" and "handle ws = None"
  shows "Write_prepare ws w = create ws w"
proof -
  obtain e ws1 w1 where cr: "create ws w = (e, ws1, w1)"
    by (cases "create ws w") auto
  from reachable_counters [OF assms] create_fields [OF cr] have "\<not> rotation_due ws1"
    by (simp add: rotation_due_zero)
  with cr assms(2) show ?thesis by (simp add: Write_prepare_def)
qed

subsection \<open>A write with and without rotation\<close>

lemma Write_open_no_rotation:
  assumes "handle ws = Some h" and "h < length (files w)" and "\<not> rotation_due ws"
    and "Write ws p w = ((n, e), ws1, w1)"
  shows "file_Write (Some h) p w = ((n, e), w1)
       \<and> ws1 = ws\<lparr>numLines := numLines ws + 1, numBytes := numBytes ws + word_of_nat n\<rparr>"
  using assms by (auto simp: Write_def Write_prepare_open split: prod.splits)

lemma file_Write_no_fault:
  assumes "file_Write (Some h) p w = ((n, e), w1)" and "h < length (files w)"
    and "\<not> is_closed (files w ! h)" and "fst (next_reply None (write_faults w)) = None"
  shows "n = length p \<and> e = None \<and> write_faults w1 = snd (next_reply None (write_faults w))"
  using assms by (auto simp: file_Write_open)

lemma file_Write_is_closed:
  assumes "file_Write f p w = ((n, e), w1)" and "i < length (files w)"
  shows "is_closed (files w1 ! i) = is_closed (files w ! i)"
proof -
  from file_Write_files [OF assms(1)]
  have m: "map is_closed (files w1) = map is_closed (files w)"
    and l: "length (files w1) = length (files w)"
    by simp_all
  have "is_closed (files w1 ! i) = map is_closed (files w1) ! i"
    using l assms(2) by simp
  also have "\<dots> = map is_closed (files w) ! i"
    by (simp only: m)
  also have "\<dots> = is_closed (files w ! i)"
    using assms(2) by simp
  finally show ?thesis .
qed

lemma Write_rotates:
  assumes "handle ws = Some h" and "h < length (files w)" and "rotation_due ws"
    and "Write ws p w = (r, ws1, w1)"
  shows "is_closed (files w1 ! h) \<and> content (files w1 ! h) = content (files w ! h)
       \<and> handle ws1 \<noteq> Some h
       \<and> (fst r = 0 \<and> snd r \<noteq> None \<and> handle ws1 = None \<and> length (files w1) = length (files w)
          \<or> handle ws1 = Some (length (files w)) \<and> length (files w1) = Suc (length (files w))
            \<and> content (files w1 ! length (files w)) = take (fst r) p)"
proof -
  obtain c w2 where fc: "file_Close (Some h) w = (c, w2)"
    by (cases "file_Close (Some h) w") auto
  let ?ws2 = "ws\<lparr>numLines := 0, numBytes := 0\<rparr>"
  from fc assms(1) have cl: "Close ws w = (c, ?ws2, w2)"
    by (simp add: Close_def)
  from file_Close_files [OF fc] file_Close_closed [OF fc assms(2)] assms(2)
  have w2: "length (files w2) = length (files w)" "is_closed (files w2 ! h)"
    "content (files w2 ! h) = content (files w ! h)"
    by (auto dest: arg_cong [where f = "\<lambda>xs. xs ! h"])
  obtain e ws3 w3 where cr: "create ?ws2 w2 = (e, ws3, w3)"
    by (cases "create ?ws2 w2") auto
  from assms(1,3) cl cr have pr: "Write_prepare ws w = (e, ws3, w3)"
    by (simp add: Write_prepare_def)
  show ?thesis
  proof (cases e)
    case (Some err)
    with pr assms(4) have "r = (0, Some err)" "ws1 = ws3" "w1 = w3"
      by (auto simp: Write_def)
    moreover from create_cases [OF cr] Some have "handle ws3 = None" "files w3 = files w2"
      by auto
    ultimately show ?thesis using w2 by simp
  next
    case None
    with create_cases [OF cr] obtain name where
      c3: "handle ws3 = Some (length (files w2))"
      "files w3 = files w2 @ [\<lparr>fname = name, content = [], is_closed = False\<rparr>]"
      by auto
    obtain n ew w4 where fw: "file_Write (Some (length (files w2))) p w3 = ((n, ew), w4)"
      by (cases "file_Write (Some (length (files w2))) p w3") auto
    with pr None c3 assms(4) have res: "r = (n, ew)" "w1 = w4" "handle ws1 = Some (length (files w2))"
      by (auto simp: Write_def)
    have lt: "length (files w2) < length (files w3)" using c3 by simp
    from file_Write_content [OF fw lt] c3 assms(2) w2
    have "content (files w4 ! length (files w2)) = take n p" "files w4 ! h = files w2 ! h"
      by (auto simp: nth_append)
    moreover from file_Write_files [OF fw] c3 have "length (files w4) = Suc (length (files w2))"
      by simp
    ultimately show ?thesis using res w2 assms(2) by auto
  qed
qed

text \<open>
  The three ways in which a call of \<open>Write\<close> reaches a file: the file it holds, the
  file created lazily, the file created by a rotation; and the call that reaches none.
\<close>

lemma Write_at_target:
  assumes pr: "Write_prepare ws w = (None, ws3, w3)"
    and h3: "handle ws3 = Some k" and lt: "k < length (files w3)"
    and wr: "Write ws p w = ((n, e), ws1, w1)"
  shows "handle ws1 = Some k \<and> length (files w1) = length (files w3)
       \<and> is_closed (files w1 ! k) = is_closed (files w3 ! k)
       \<and> content (files w1 ! k) = content (files w3 ! k) @ take n p
       \<and> (\<forall>i. i \<noteq> k \<longrightarrow> files w1 ! i = files w3 ! i)
       \<and> (\<not> is_closed (files w3 ! k) \<and> fst (next_reply None (write_faults w3)) = None \<longrightarrow>
            n = length p \<and> e = None)
       \<and> numLines ws1 = numLines ws3 + 1 \<and> numBytes ws1 = numBytes ws3 + word_of_nat n"
proof -
  from pr h3 wr have fw: "file_Write (Some k) p w3 = ((n, e), w1)"
    and ws1: "ws1 = ws3\<lparr>numLines := numLines ws3 + 1, numBytes := numBytes ws3 + word_of_nat n\<rparr>"
    by (auto simp: Write_def split: prod.splits)
  from file_Write_files [OF fw] have "length (files w1) = length (files w3)" by simp
  moreover note file_Write_is_closed [OF fw lt] file_Write_content [OF fw lt]
  moreover have "\<not> is_closed (files w3 ! k) \<and> fst (next_reply None (write_faults w3)) = None \<longrightarrow>
            n = length p \<and> e = None"
    using file_Write_no_fault [OF fw lt] by simp
  ultimately show ?thesis using ws1 h3 by simp
qed

lemma Write_prepare_lazy_ok:
  assumes "reachable ws" and "handle ws = None" and "fst (create ws w) = None"
  shows "\<exists>ws3 w3. Write_prepare ws w = (None, ws3, w3)
       \<and> handle ws3 = Some (length (files w))
       \<and> length (files w3) = Suc (length (files w))
       \<and> \<not> is_closed (files w3 ! length (files w))
       \<and> content (files w3 ! length (files w)) = []
       \<and> (\<forall>i < length (files w). files w3 ! i = files w ! i)
       \<and> write_faults w3 = write_faults w
       \<and> numLines ws3 = 0 \<and> numBytes ws3 = 0"
proof -
  obtain ws3 w3 where cr: "create ws w = (None, ws3, w3)"
    using assms(3) by (cases "create ws w") auto
  from Write_prepare_lazy [OF assms(1,2)] cr have "Write_prepare ws w = (None, ws3, w3)"
    by simp
  moreover note create_ok_world [OF cr]
  moreover from create_cases [OF cr] have "\<forall>i < length (files w). files w3 ! i = files w ! i"
    by (auto simp: nth_append)
  moreover from create_fields [OF cr] reachable_counters [OF assms(1,2)]
  have "numLines ws3 = 0 \<and> numBytes ws3 = 0" by simp
  ultimately show ?thesis by blast
qed

lemma Write_prepare_rotation_ok:
  assumes "handle ws = Some h" and "h < length (files w)" and "rotation_due ws"
    and "fst (Write_prepare ws w) = None"
  shows "\<exists>ws3 w3. Write_prepare ws w = (None, ws3, w3)
       \<and> handle ws3 = Some (length (files w))
       \<and> length (files w3) = Suc (length (files w))
       \<and> \<not> is_closed (files w3 ! length (files w))
       \<and> content (files w3 ! length (files w)) = []
       \<and> is_closed (files w3 ! h) \<and> content (files w3 ! h) = content (files w ! h)
       \<and> write_faults w3 = write_faults w
       \<and> numLines ws3 = 0 \<and> numBytes ws3 = 0"
proof -
  obtain c w2 where fc: "file_Close (Some h) w = (c, w2)"
    by (cases "file_Close (Some h) w") auto
  let ?ws2 = "ws\<lparr>numLines := 0, numBytes := 0\<rparr>"
  from fc assms(1) have cl: "Close ws w = (c, ?ws2, w2)"
    by (simp add: Close_def)
  from file_Close_files [OF fc] file_Close_closed [OF fc assms(2)] assms(2)
  have w2: "length (files w2) = length (files w)" "is_closed (files w2 ! h)"
    "content (files w2 ! h) = content (files w ! h)" "write_faults w2 = write_faults w"
    by (auto dest: arg_cong [where f = "\<lambda>xs. xs ! h"])
  obtain e ws3 w3 where cr: "create ?ws2 w2 = (e, ws3, w3)"
    by (cases "create ?ws2 w2") auto
  from assms(1,3) cl cr have pr: "Write_prepare ws w = (e, ws3, w3)"
    by (simp add: Write_prepare_def)
  with assms(4) have e: "e = None" by simp
  note cw = create_ok_world [OF cr [unfolded e]]
  from create_cases [OF cr] e assms(2) w2 have "files w3 ! h = files w2 ! h"
    by (auto simp: nth_append)
  moreover from create_fields [OF cr] have "numLines ws3 = 0 \<and> numBytes ws3 = 0" by simp
  ultimately show ?thesis using pr e cw w2 by simp
qed

lemma Write_target_valid:
  assumes "reachable ws" and "\<And>h. handle ws = Some h \<Longrightarrow> h < length (files w)"
    and "Write_prepare ws w = (None, ws3, w3)"
  shows "\<exists>k. handle ws3 = Some k \<and> k < length (files w3)"
proof (cases "handle ws")
  case None
  with Write_prepare_lazy [OF assms(1)] assms(3) have cr: "create ws w = (None, ws3, w3)"
    by simp
  from create_ok_world [OF cr] show ?thesis by simp
next
  case (Some h)
  show ?thesis
  proof (cases "rotation_due ws")
    case True
    from Write_prepare_rotation_ok [OF Some assms(2) [OF Some] True] assms(3)
    show ?thesis by auto
  next
    case False
    from Write_prepare_open [OF Some False, of w] assms(3) Some assms(2) [OF Some]
    show ?thesis by simp
  qed
qed

lemma Write_prepare_failure:
  assumes "reachable ws" and "Write_prepare ws w = (Some err, ws3, w3)"
    and "Write ws p w = ((n, e), ws1, w1)"
  shows "n = 0 \<and> e = Some err \<and> map content (files w1) = map content (files w)"
proof -
  from assms(2,3) have r: "n = 0" "e = Some err" "w1 = w3"
    by (auto simp: Write_def)
  have "map content (files w3) = map content (files w)"
  proof (cases "handle ws")
    case None
    with Write_prepare_lazy [OF assms(1)] assms(2) have "create ws w = (Some err, ws3, w3)"
      by simp
    from create_cases [OF this] show ?thesis by simp
  next
    case (Some h)
    show ?thesis
    proof (cases "rotation_due ws")
      case False
      from Write_prepare_open [OF Some False, of w] assms(2) show ?thesis by simp
    next
      case True
      obtain c ws2 w2 where cl: "Close ws w = (c, ws2, w2)"
        by (cases "Close ws w") auto
      with Some True assms(2) have cr: "create ws2 w2 = (Some err, ws3, w3)"
        by (simp add: Write_prepare_def)
      from cl Some have "map content (files w2) = map content (files w)"
        by (auto dest!: Close_cases dest: file_Close_files)
      with create_cases [OF cr] show ?thesis by simp
    qed
  qed
  with r show ?thesis by simp
qed

subsection \<open>Sinks without limit\<close>

lemma Write_Limit:
  "Write ws p w = (r, ws1, w1) \<Longrightarrow> Limit ws1 = Limit ws"
  by (auto simp: Write_def split: prod.splits option.splits dest: Write_prepare_fields)

lemma Writes_open_without_limit:
  assumes "sint (Limit ws) \<le> 0" and "handle ws = Some h" and "h < length (files w)"
    and "\<not> is_closed (files w ! h)" and "Writes ps ws w = (ws1, w1)"
  shows "handle ws1 = Some h \<and> length (files w1) = length (files w)
       \<and> \<not> is_closed (files w1 ! h)
       \<and> (write_faults w = [] \<longrightarrow> content (files w1 ! h) = content (files w ! h) @ concat ps)"
  using assms
proof (induction ps arbitrary: ws w)
  case Nil
  then show ?case by simp
next
  case (Cons p ps)
  obtain n e wsa wa where wr: "Write ws p w = ((n, e), wsa, wa)"
    by (cases "Write ws p w") auto
  have nr: "\<not> rotation_due ws" using Cons.prems(1) by (rule rotation_due_limit)
  from Write_open_no_rotation [OF Cons.prems(2,3) nr wr]
  have fw: "file_Write (Some h) p w = ((n, e), wa)"
    and wsa: "wsa = ws\<lparr>numLines := numLines ws + 1, numBytes := numBytes ws + word_of_nat n\<rparr>"
    by simp_all
  have a: "sint (Limit wsa) \<le> 0" "handle wsa = Some h"
    using wsa Cons.prems(1,2) by simp_all
  have b: "h < length (files wa)" "length (files wa) = length (files w)"
    using file_Write_files [OF fw] Cons.prems(3) by simp_all
  have c: "\<not> is_closed (files wa ! h)"
    using file_Write_is_closed [OF fw Cons.prems(3)] Cons.prems(4) by simp
  have d: "content (files wa ! h) = content (files w ! h) @ take n p"
    using file_Write_content [OF fw Cons.prems(3)] by simp
  have e: "write_faults w = [] \<longrightarrow> n = length p \<and> write_faults wa = []"
    using file_Write_no_fault [OF fw Cons.prems(3,4)] by auto
  from wr Cons.prems(5) have rest: "Writes ps wsa wa = (ws1, w1)" by simp
  from Cons.IH [OF a b(1) c rest] b d e show ?case by auto
qed

lemma Write_prepare_without_limit:
  assumes "sint (Limit ws) \<le> 0" and "handle ws = None"
  shows "Write_prepare ws w = create ws w"
proof -
  obtain e ws1 w1 where cr: "create ws w = (e, ws1, w1)"
    by (cases "create ws w") auto
  from create_fields [OF cr] assms(1) have "\<not> rotation_due ws1"
    by (simp add: rotation_due_limit)
  with cr assms(2) show ?thesis by (simp add: Write_prepare_def)
qed

lemma Write_lazy_without_limit:
  assumes "sint (Limit ws) \<le> 0" and "handle ws = None" and "Write ws p w = (r, wsa, wa)"
  shows "fst (create ws w) \<noteq> None \<and> handle wsa = None \<and> files wa = files w
       \<or> fst (create ws w) = None \<and> handle wsa = Some (length (files w))
          \<and> length (files wa) = Suc (length (files w))
          \<and> \<not> is_closed (files wa ! length (files w))
          \<and> content (files wa ! length (files w)) = take (fst r) p
          \<and> (write_faults w = [] \<longrightarrow> fst r = length p \<and> write_faults wa = [])"
proof -
  obtain e wsc wc where cr: "create ws w = (e, wsc, wc)"
    by (cases "create ws w") auto
  with Write_prepare_without_limit [OF assms(1,2)] have pr: "Write_prepare ws w = (e, wsc, wc)"
    by simp
  show ?thesis
  proof (cases e)
    case (Some err)
    with pr assms(3) have "wsa = wsc" "wa = wc" by (auto simp: Write_def)
    with create_cases [OF cr] Some cr show ?thesis by auto
  next
    case None
    note cw = create_ok_world [OF cr [unfolded None]]
    let ?k = "length (files w)"
    obtain n ew w4 where fw: "file_Write (Some ?k) p wc = ((n, ew), w4)"
      by (cases "file_Write (Some ?k) p wc") auto
    with pr None cw assms(3) have res: "r = (n, ew)" "wa = w4" "handle wsa = Some ?k"
      by (auto simp: Write_def)
    have lt: "?k < length (files wc)" using cw by simp
    have op: "\<not> is_closed (files wc ! ?k)" using cw by simp
    from file_Write_files [OF fw] cw have "length (files w4) = Suc ?k" by simp
    moreover from file_Write_is_closed [OF fw lt] op have "\<not> is_closed (files w4 ! ?k)" by simp
    moreover from file_Write_content [OF fw lt] cw have "content (files w4 ! ?k) = take n p"
      by simp
    moreover have "write_faults w = [] \<longrightarrow> n = length p \<and> write_faults w4 = []"
      using file_Write_no_fault [OF fw lt op] cw by auto
    ultimately show ?thesis using res cr None by simp
  qed
qed

lemma Writes_at_most_one_file:
  assumes "sint (Limit ws) \<le> 0" and "handle ws = None" and "Writes ps ws w = (ws1, w1)"
  shows "length (files w1) \<le> Suc (length (files w))"
  using assms
proof (induction ps arbitrary: ws w)
  case Nil
  then show ?case by simp
next
  case (Cons p ps)
  obtain r wsa wa where wr: "Write ws p w = (r, wsa, wa)"
    by (cases "Write ws p w") auto
  from wr Cons.prems(3) have rest: "Writes ps wsa wa = (ws1, w1)" by simp
  have lim: "sint (Limit wsa) \<le> 0" using Write_Limit [OF wr] Cons.prems(1) by simp
  from Write_lazy_without_limit [OF Cons.prems(1,2) wr] show ?case
  proof (elim disjE conjE)
    assume "handle wsa = None" "files wa = files w"
    with Cons.IH [OF lim _ rest] show ?thesis by simp
  next
    assume "handle wsa = Some (length (files w))"
      "length (files wa) = Suc (length (files w))"
      "\<not> is_closed (files wa ! length (files w))"
    with Writes_open_without_limit [OF lim _ _ _ rest, of "length (files w)"]
    show ?thesis by simp
  qed
qed

subsection \<open>The guard in byte mode\<close>

text \<open>
  In byte mode the guard of the \<open>switch\<close> is true when the limit is positive and
  either counter has reached it: the second case (line 79) does not test \<open>ws.Bytes\<close>.
\<close>

lemma rotation_due_byte_mode:
  "Bytes ws \<Longrightarrow>
     rotation_due ws =
       (0 < sint (Limit ws)
        \<and> (sint (Limit ws) \<le> sint (numBytes ws) \<or> sint (Limit ws) \<le> sint (numLines ws)))"
  by (auto simp: rotation_due_def)

subsection \<open>CheckDir\<close>

text \<open>
  What \<open>CheckDir\<close> does, by what \<open>os.Stat\<close> finds at the cleaned path: \<open>ErrNotADir\<close>
  for \<open>ENOENT\<close> and for a file that is not a directory, nil for a directory, and a
  panic for every other error of \<open>os.Stat\<close>, since \<open>stat.IsDir()\<close> is evaluated, on a
  nil \<open>stat\<close>, before \<open>os.IsPermission(e)\<close>.
\<close>

lemma CheckDir_cases:
  "CheckDir fs dir =
     (case fs (Clean dir) of
        Inl en \<Rightarrow> (if en = ENOENT then Return (Some ErrNotADir) else Panic)
      | Inr fi \<Rightarrow> (if IsDir fi then Return None else Return (Some ErrNotADir)))"
  by (auto simp: CheckDir_def os_Stat_def os_IsNotExist_def os_IsPermission_def
      split: sum.splits)

subsection \<open>The constructors and create\<close>

text \<open>The model of \<open>filepath.Clean\<close> on the examples of Go's documentation and tests.\<close>

lemma Clean_examples:
  "Clean [] = ''.''"
  "Clean ''.'' = ''.''"
  "Clean ''/'' = ''/''"
  "Clean ''abc/def/'' = ''abc/def''"
  "Clean ''abc//def//ghi'' = ''abc/def/ghi''"
  "Clean ''abc/./def'' = ''abc/def''"
  "Clean ''abc/def/../ghi/../jkl'' = ''abc/jkl''"
  "Clean ''abc/def/../../..'' = ''..''"
  "Clean ''/abc/def/../../..'' = ''/''"
  "Clean ''../../abc'' = ''../../abc''"
  "Clean ''/../abc'' = ''/abc''"
  "Clean ''abc/./../def'' = ''def''"
  "Clean ''abc/../../././../def'' = ''../../def''"
  by (simp_all add: Clean_def is_rooted_def clean_step_def)

lemma Clean_not_empty: "Clean path \<noteq> []"
  by (simp add: Clean_def Let_def)

lemma create_Dir_Prefix:
  "create ws w = (e, ws1, w1) \<Longrightarrow>
     Dir ws1 = (if Dir ws = ''.'' then [] else Dir ws)
     \<and> Prefix ws1 = (if Prefix ws = ''.'' then [] else Prefix ws)"
  by (auto simp: create_def Let_def split: prod.splits if_splits)

subsection \<open>Evaluation of the model on concrete inputs\<close>

lemmas eval_defs =
  LineSplitter_def ByteSplitter_def Write_def Write_prepare_def Close_def create_def
  rotation_due_def time_Now_Format_def os_Create_def file_Write_def file_Close_def
  Join_def Clean_def is_rooted_def clean_step_def fresh_world_def

text \<open>
  A closed sink with a positive limit: the writes that fail on the closed file are
  counted, so a line sink of limit 1 rotates at the second write after \<open>Close\<close> and
  writes into a new file.
\<close>

lemma closed_sink_rotates_after_failed_writes:
  "case Writes [[97]] (LineSplitter 1 ''/tmp/x'' ''log-'') fresh_world of
     (ws, w) \<Rightarrow>
       (case Close ws w of
          (r, ws1, w1) \<Rightarrow>
            r = None
            \<and> (case Write ws1 [98] w1 of
                 (r2, ws2, w2) \<Rightarrow>
                   r2 = (0, Some ErrClosed) \<and> numLines ws2 = 1 \<and> length (files w2) = 1
                   \<and> (case Write ws2 [99] w2 of
                        (r3, ws3, w3) \<Rightarrow>
                          r3 = (1, None) \<and> handle ws3 = Some 1 \<and> length (files w3) = 2
                          \<and> content (files w3 ! 1) = [99])))"
  by (simp add: eval_defs)

section \<open>The claims\<close>

subsection \<open>C1: Close on a sink with an open handle\<close>

text \<open>
  Claim C1 says that \<open>Close\<close> clears the handle of the sink, so that the next
  \<open>Write\<close> creates a fresh file and succeeds. \<open>Close\<close> (lines 57 to 63) never assigns
  \<open>ws.handle\<close>. Below, a sink writes one byte and is closed without error: the handle
  is still \<open>Some 0\<close>, and the next \<open>Write\<close> creates no file, goes to the closed file and
  returns \<open>(0, os.ErrClosed)\<close>. This is what the comment above \<open>Close\<close> announces:
  "Subsequent writes will return an error."
\<close>

theorem Close_keeps_handle_and_later_writes_fail_counterexample:
  "case Writes [[97]] (LineSplitter 3 ''/tmp/x'' ''log-'') fresh_world of
     (ws, w) \<Rightarrow>
       (case Close ws w of
          (r, ws1, w1) \<Rightarrow>
            r = None \<and> handle ws1 = Some 0
            \<and> (case Write ws1 [98] w1 of
                 (r2, ws2, w2) \<Rightarrow>
                   r2 = (0, Some ErrClosed) \<and> handle ws2 = Some 0
                   \<and> length (files w2) = 1 \<and> content (files w2 ! 0) = [97]))"
  by (simp add: eval_defs)

text \<open>
  Claim C1, amended. For every sink with an open handle, \<open>Close\<close> resets \<open>numLines\<close>
  and \<open>numBytes\<close> to 0, closes the file and returns the result of the underlying
  close, and keeps the handle. The next \<open>Write\<close> therefore creates no file: it is
  passed to the closed file, writes nothing and returns \<open>(0, os.ErrClosed)\<close>, leaving
  the world as it is; the call is counted in \<open>numLines\<close> all the same.
\<close>

theorem Close_keeps_handle_and_later_writes_fail:
  assumes "handle ws = Some h" and "h < length (files w)"
    and "Close ws w = (r, ws1, w1)" and "Write ws1 p w1 = (r2, ws2, w2)"
  shows "numLines ws1 = 0 \<and> numBytes ws1 = 0
       \<and> file_Close (Some h) w = (r, w1) \<and> is_closed (files w1 ! h)
       \<and> handle ws1 = Some h
       \<and> r2 = (0, Some ErrClosed) \<and> w2 = w1 \<and> handle ws2 = Some h
       \<and> numLines ws2 = 1 \<and> numBytes ws2 = 0"
proof -
  from assms(1,3) have c: "file_Close (Some h) w = (r, w1)"
    "ws1 = ws\<lparr>numLines := 0, numBytes := 0\<rparr>"
    by (auto dest!: Close_cases)
  from c(1) assms(2) have cl: "is_closed (files w1 ! h)" "h < length (files w1)"
    by (auto dest: file_Close_closed file_Close_files)
  have nr: "\<not> rotation_due ws1"
    using c(2) by (simp add: rotation_due_zero)
  have h1: "handle ws1 = Some h"
    using c(2) assms(1) by simp
  from Write_on_closed_handle [OF h1 cl(2) cl(1) nr, of p] assms(4)
  have "r2 = (0, Some ErrClosed)" "w2 = w1" "handle ws2 = Some h"
    "numLines ws2 = 1" "numBytes ws2 = 0"
    using h1 c(2) by auto
  with c cl h1 show ?thesis by simp
qed

theorem Close_keeps_handle_and_later_writes_fail_witness:
  "case Writes [[97]] (LineSplitter 3 ''/tmp/x'' ''log-'') fresh_world of
     (ws, w) \<Rightarrow>
       handle ws = Some 0 \<and> 0 < length (files w) \<and> numLines ws = 1 \<and> numBytes ws = 1
       \<and> (case Close ws w of
            (r, ws1, w1) \<Rightarrow>
              numLines ws1 = 0 \<and> numBytes ws1 = 0 \<and> handle ws1 = Some 0
              \<and> is_closed (files w1 ! 0)
              \<and> fst (Write ws1 [98] w1) = (0, Some ErrClosed))"
proof -
  obtain ws w where s: "Writes [[97]] (LineSplitter 3 ''/tmp/x'' ''log-'') fresh_world = (ws, w)"
    by force
  obtain r ws1 w1 where c: "Close ws w = (r, ws1, w1)"
    by (cases "Close ws w") auto
  obtain r2 ws2 w2 where wr: "Write ws1 [98] w1 = (r2, ws2, w2)"
    by (cases "Write ws1 [98] w1") auto
  have h: "handle ws = Some 0" and l: "0 < length (files w)"
    and n: "numLines ws = 1 \<and> numBytes ws = 1"
    using s by (auto simp: eval_defs)
  from Close_keeps_handle_and_later_writes_fail [OF h l c wr] s c wr h l n show ?thesis
    by simp
qed

subsection \<open>C2: what rotates a byte sink\<close>

text \<open>
  Claim C2 says that a byte sink rotates if and only if \<open>numBytes\<close> has reached the
  limit, and never on the count of writes. The code at a byte sink of limit 2 after two
  writes of an empty payload: no byte has been written (\<open>numBytes = 0 < 2\<close>), the
  count of writes is 2, and the third \<open>Write\<close> closes the first file, still empty, and
  writes into a second one.
\<close>

theorem byte_mode_rotates_on_write_count:
  "case Writes [[], []] (ByteSplitter 2 ''/tmp/x'' ''log-'') fresh_world of
     (ws, w) \<Rightarrow>
       Bytes ws \<and> Limit ws = 2 \<and> handle ws = Some 0 \<and> length (files w) = 1
       \<and> numBytes ws = 0 \<and> numLines ws = 2
       \<and> (case Write ws [120] w of
            (r, ws1, w1) \<Rightarrow>
              r = (1, None) \<and> handle ws1 = Some 1 \<and> length (files w1) = 2
              \<and> is_closed (files w1 ! 0) \<and> content (files w1 ! 0) = []
              \<and> content (files w1 ! 1) = [120])"
  by (simp add: eval_defs)

subsection \<open>C3: the rotation is decided on the counters before the call\<close>

text \<open>
  Claim C3. For every call \<open>Write ws p w\<close> on a sink a caller can reach, whose handle,
  if any, is a file of the world: the guard of the rotation is \<open>rotation_due ws\<close>, a
  function of the counters before the call in which the payload \<open>p\<close> does not occur,
  and on every path the payload goes, whatever its length, into one file: the first
  \<open>n\<close> bytes of \<open>p\<close>, all of \<open>p\<close> when that file is open and the system call does not
  fail.
  \<^item> The guard is false and the sink holds the file \<open>h\<close>: \<open>p\<close> goes into \<open>h\<close>, no
    file is created or closed, the counters grow by one write and \<open>n\<close> bytes.
  \<^item> The sink holds no file and \<open>os.Create\<close> succeeds: the guard is false, \<open>p\<close> goes
    into the new file, the counters are one write and \<open>n\<close> bytes.
  \<^item> The guard is true, the sink holds \<open>h\<close> and the creation succeeds: \<open>h\<close> is closed
    with its content as it was, \<open>p\<close> goes into the new file, the counters are one write
    and \<open>n\<close> bytes.
  \<^item> The call does not reach a file (a creation failed): nothing is written.
  \<^item> The rotation takes effect at the next call only: when the counters after this
    call make the guard true, the next \<open>Write\<close> closes the file \<open>k\<close> this call wrote
    to, leaves its content as it is and does not write to it; when they do not, the
    next \<open>Write\<close> stays on \<open>k\<close> and creates no file.
\<close>

theorem Write_decides_on_counters_before_the_call:
  assumes "reachable ws"
    and "\<And>h. handle ws = Some h \<Longrightarrow> h < length (files w)"
    and "Write ws p w = ((n, e), ws1, w1)"
    and "Write ws1 q w1 = (r2, ws2, w2)"
  shows "(\<not> rotation_due ws \<and> handle ws = Some h \<longrightarrow>
            handle ws1 = Some h \<and> length (files w1) = length (files w)
            \<and> is_closed (files w1 ! h) = is_closed (files w ! h)
            \<and> content (files w1 ! h) = content (files w ! h) @ take n p
            \<and> (\<not> is_closed (files w ! h) \<and> fst (next_reply None (write_faults w)) = None \<longrightarrow>
                 n = length p \<and> e = None)
            \<and> numLines ws1 = numLines ws + 1 \<and> numBytes ws1 = numBytes ws + word_of_nat n)
       \<and> (handle ws = None \<and> fst (create ws w) = None \<longrightarrow>
            \<not> rotation_due ws
            \<and> handle ws1 = Some (length (files w)) \<and> length (files w1) = Suc (length (files w))
            \<and> \<not> is_closed (files w1 ! length (files w))
            \<and> content (files w1 ! length (files w)) = take n p
            \<and> (fst (next_reply None (write_faults w)) = None \<longrightarrow> n = length p \<and> e = None)
            \<and> numLines ws1 = 1 \<and> numBytes ws1 = word_of_nat n)
       \<and> (rotation_due ws \<and> handle ws = Some h \<and> fst (Write_prepare ws w) = None \<longrightarrow>
            is_closed (files w1 ! h) \<and> content (files w1 ! h) = content (files w ! h)
            \<and> handle ws1 = Some (length (files w)) \<and> length (files w1) = Suc (length (files w))
            \<and> \<not> is_closed (files w1 ! length (files w))
            \<and> content (files w1 ! length (files w)) = take n p
            \<and> (fst (next_reply None (write_faults w)) = None \<longrightarrow> n = length p \<and> e = None)
            \<and> numLines ws1 = 1 \<and> numBytes ws1 = word_of_nat n)
       \<and> (fst (Write_prepare ws w) \<noteq> None \<longrightarrow>
            n = 0 \<and> e = fst (Write_prepare ws w)
            \<and> map content (files w1) = map content (files w))
       \<and> (fst (Write_prepare ws w) = None \<and> handle ws1 = Some k \<longrightarrow>
            (rotation_due ws1 \<longrightarrow>
               is_closed (files w2 ! k) \<and> content (files w2 ! k) = content (files w1 ! k)
               \<and> handle ws2 \<noteq> Some k)
            \<and> (\<not> rotation_due ws1 \<longrightarrow>
               handle ws2 = Some k \<and> length (files w2) = length (files w1)))"
proof -
  have stay: "handle ws1 = Some h \<and> length (files w1) = length (files w)
            \<and> is_closed (files w1 ! h) = is_closed (files w ! h)
            \<and> content (files w1 ! h) = content (files w ! h) @ take n p
            \<and> (\<not> is_closed (files w ! h) \<and> fst (next_reply None (write_faults w)) = None \<longrightarrow>
                 n = length p \<and> e = None)
            \<and> numLines ws1 = numLines ws + 1 \<and> numBytes ws1 = numBytes ws + word_of_nat n"
    if a: "\<not> rotation_due ws" "handle ws = Some h"
  proof -
    from a have pr: "Write_prepare ws w = (None, ws, w)" by (simp add: Write_prepare_open)
    from Write_at_target [OF pr a(2) assms(2) [OF a(2)] assms(3)] show ?thesis by simp
  qed
  have lazy: "\<not> rotation_due ws
            \<and> handle ws1 = Some (length (files w)) \<and> length (files w1) = Suc (length (files w))
            \<and> \<not> is_closed (files w1 ! length (files w))
            \<and> content (files w1 ! length (files w)) = take n p
            \<and> (fst (next_reply None (write_faults w)) = None \<longrightarrow> n = length p \<and> e = None)
            \<and> numLines ws1 = 1 \<and> numBytes ws1 = word_of_nat n"
    if a: "handle ws = None" "fst (create ws w) = None"
  proof -
    from Write_prepare_lazy_ok [OF assms(1) a] obtain ws3 w3 where
      pr: "Write_prepare ws w = (None, ws3, w3)"
      and t: "handle ws3 = Some (length (files w))"
      "length (files w3) = Suc (length (files w))"
      "\<not> is_closed (files w3 ! length (files w))"
      "content (files w3 ! length (files w)) = []"
      "write_faults w3 = write_faults w"
      "numLines ws3 = 0 \<and> numBytes ws3 = 0"
      by blast
    have lt: "length (files w) < length (files w3)" using t(2) by simp
    have "\<not> rotation_due ws"
      using reachable_counters [OF assms(1) a(1)] by (simp add: rotation_due_zero)
    with Write_at_target [OF pr t(1) lt assms(3)] t show ?thesis by simp
  qed
  have rot: "is_closed (files w1 ! h) \<and> content (files w1 ! h) = content (files w ! h)
            \<and> handle ws1 = Some (length (files w)) \<and> length (files w1) = Suc (length (files w))
            \<and> \<not> is_closed (files w1 ! length (files w))
            \<and> content (files w1 ! length (files w)) = take n p
            \<and> (fst (next_reply None (write_faults w)) = None \<longrightarrow> n = length p \<and> e = None)
            \<and> numLines ws1 = 1 \<and> numBytes ws1 = word_of_nat n"
    if a: "rotation_due ws" "handle ws = Some h" "fst (Write_prepare ws w) = None"
  proof -
    have hl: "h < length (files w)" using assms(2) [OF a(2)] .
    from Write_prepare_rotation_ok [OF a(2) hl a(1,3)] obtain ws3 w3 where
      pr: "Write_prepare ws w = (None, ws3, w3)"
      and t: "handle ws3 = Some (length (files w))"
      "length (files w3) = Suc (length (files w))"
      "\<not> is_closed (files w3 ! length (files w))"
      "content (files w3 ! length (files w)) = []"
      "is_closed (files w3 ! h)" "content (files w3 ! h) = content (files w ! h)"
      "write_faults w3 = write_faults w"
      "numLines ws3 = 0 \<and> numBytes ws3 = 0"
      by blast
    have lt: "length (files w) < length (files w3)" using t(2) by simp
    from Write_at_target [OF pr t(1) lt assms(3)] hl
    have "files w1 ! h = files w3 ! h" by simp
    with Write_at_target [OF pr t(1) lt assms(3)] t show ?thesis by simp
  qed
  have fail: "n = 0 \<and> e = fst (Write_prepare ws w)
            \<and> map content (files w1) = map content (files w)"
    if a: "fst (Write_prepare ws w) \<noteq> None"
  proof -
    from a obtain err ws3 w3 where pr: "Write_prepare ws w = (Some err, ws3, w3)"
      by (cases "Write_prepare ws w") auto
    from Write_prepare_failure [OF assms(1) pr assms(3)] pr show ?thesis by simp
  qed
  have nxt: "(rotation_due ws1 \<longrightarrow>
               is_closed (files w2 ! k) \<and> content (files w2 ! k) = content (files w1 ! k)
               \<and> handle ws2 \<noteq> Some k)
            \<and> (\<not> rotation_due ws1 \<longrightarrow>
               handle ws2 = Some k \<and> length (files w2) = length (files w1))"
    if a: "fst (Write_prepare ws w) = None" "handle ws1 = Some k"
  proof -
    from a(1) obtain ws3 w3 where pr: "Write_prepare ws w = (None, ws3, w3)"
      by (cases "Write_prepare ws w") auto
    from Write_target_valid [OF assms(1,2) pr] obtain k' where
      k': "handle ws3 = Some k'" "k' < length (files w3)"
      by blast
    from Write_at_target [OF pr k' assms(3)] a(2) k'(2)
    have lt: "k < length (files w1)" by simp
    have r: "rotation_due ws1 \<longrightarrow>
               is_closed (files w2 ! k) \<and> content (files w2 ! k) = content (files w1 ! k)
               \<and> handle ws2 \<noteq> Some k"
      using Write_rotates [OF a(2) lt _ assms(4)] by simp
    have s: "\<not> rotation_due ws1 \<longrightarrow> handle ws2 = Some k \<and> length (files w2) = length (files w1)"
    proof
      assume nr: "\<not> rotation_due ws1"
      obtain n2 e2 where "r2 = (n2, e2)" by (cases r2) auto
      with Write_open_no_rotation [OF a(2) lt nr, of q n2 e2 ws2 w2] assms(4) a(2)
      show "handle ws2 = Some k \<and> length (files w2) = length (files w1)"
        by (auto dest: file_Write_files)
    qed
    from r s show ?thesis by simp
  qed
  from stay lazy rot fail nxt show ?thesis by blast
qed

text \<open>
  The witness is the scenario of the specification, continued: a fresh byte sink of
  limit 10 receives a payload of 11 bytes, which goes in full into the file created for
  it, and \<open>numBytes\<close> becomes 11; the next write rotates, closes that file and goes in
  full to a second one; the write after it stays on the second file. The last part is
  a call whose creation fails: nothing is written.
\<close>

theorem Write_decides_on_counters_before_the_call_witness:
  "reachable (ByteSplitter 10 ''/tmp/x'' ''log-'')
   \<and> handle (ByteSplitter 10 ''/tmp/x'' ''log-'') = None
   \<and> fst (create (ByteSplitter 10 ''/tmp/x'' ''log-'') fresh_world) = None
   \<and> fst (next_reply None (write_faults fresh_world)) = None
   \<and> (case Write (ByteSplitter 10 ''/tmp/x'' ''log-'') [1, 2, 3, 4, 5, 6, 7, 8, 9, 10, 11]
             fresh_world of
        ((n, e), ws1, w1) \<Rightarrow>
          n = 11 \<and> e = None \<and> handle ws1 = Some 0 \<and> length (files w1) = 1
          \<and> content (files w1 ! 0) = [1, 2, 3, 4, 5, 6, 7, 8, 9, 10, 11]
          \<and> numLines ws1 = 1 \<and> numBytes ws1 = 11
          \<and> reachable ws1 \<and> rotation_due ws1 \<and> fst (Write_prepare ws1 w1) = None
          \<and> (case Write ws1 [12] w1 of
               ((n2, e2), ws2, w2) \<Rightarrow>
                 n2 = 1 \<and> e2 = None \<and> is_closed (files w2 ! 0)
                 \<and> content (files w2 ! 0) = [1, 2, 3, 4, 5, 6, 7, 8, 9, 10, 11]
                 \<and> handle ws2 = Some 1 \<and> length (files w2) = 2
                 \<and> content (files w2 ! 1) = [12]
                 \<and> numLines ws2 = 1 \<and> numBytes ws2 = 1
                 \<and> reachable ws2 \<and> \<not> rotation_due ws2
                 \<and> (case Write ws2 [13, 14] w2 of
                      ((n3, e3), ws3, w3) \<Rightarrow>
                        n3 = 2 \<and> e3 = None \<and> handle ws3 = Some 1 \<and> length (files w3) = 2
                        \<and> content (files w3 ! 1) = [12, 13, 14]
                        \<and> numLines ws3 = 2 \<and> numBytes ws3 = 3)))
   \<and> fst (Write_prepare (ByteSplitter 10 ''/tmp/x'' ''log-'')
             (fresh_world\<lparr>create_faults := [Some EACCES]\<rparr>)) = Some (PathError EACCES)
   \<and> (case Write (ByteSplitter 10 ''/tmp/x'' ''log-'') [1, 2, 3]
             (fresh_world\<lparr>create_faults := [Some EACCES]\<rparr>) of
        ((n, e), ws1, w1) \<Rightarrow>
          n = 0 \<and> e = Some (PathError EACCES) \<and> map content (files w1) = [])"
proof -
  let ?ws = "ByteSplitter 10 ''/tmp/x'' ''log-''"
  let ?p = "[1, 2, 3, 4, 5, 6, 7, 8, 9, 10, 11] :: byte list"
  have re: "reachable ?ws" by (rule reach_ByteSplitter)
  have v: "\<And>h. handle ?ws = Some h \<Longrightarrow> h < length (files fresh_world)"
    by (simp add: ByteSplitter_def)
  obtain n e ws1 w1 where wr1: "Write ?ws ?p fresh_world = ((n, e), ws1, w1)"
    by (cases "Write ?ws ?p fresh_world") auto
  obtain n2 e2 ws2 w2 where wr2: "Write ws1 [12] w1 = ((n2, e2), ws2, w2)"
    by (cases "Write ws1 [12] w1") auto
  obtain n3 e3 ws3 w3 where wr3: "Write ws2 [13, 14] w2 = ((n3, e3), ws3, w3)"
    by (cases "Write ws2 [13, 14] w2") auto
  obtain r4 ws4 w4 where wr4: "Write ws3 [] w3 = (r4, ws4, w4)"
    by (cases "Write ws3 [] w3") auto
  have re1: "reachable ws1" using re wr1 by (rule reach_Write)
  have re2: "reachable ws2" using re1 wr2 by (rule reach_Write)
  have a0: "handle ?ws = None" "fst (create ?ws fresh_world) = None"
    "fst (next_reply None (write_faults fresh_world)) = None" "length (files fresh_world) = 0"
    by (simp_all add: eval_defs)
  have a1: "handle ws1 = Some 0" "rotation_due ws1" "fst (Write_prepare ws1 w1) = None"
    "length (files w1) = 1" "fst (next_reply None (write_faults w1)) = None"
    using wr1 by (auto simp: eval_defs)
  have a2: "handle ws2 = Some 1" "\<not> rotation_due ws2" "length (files w2) = 2"
    "\<not> is_closed (files w2 ! 1)" "fst (next_reply None (write_faults w2)) = None"
    "content (files w2 ! 1) = [12]" "numLines ws2 = 1" "numBytes ws2 = 1"
    using wr1 wr2 by (auto simp: eval_defs)
  have v1: "\<And>h. handle ws1 = Some h \<Longrightarrow> h < length (files w1)"
    using a1 by simp
  have v2: "\<And>h. handle ws2 = Some h \<Longrightarrow> h < length (files w2)"
    using a2 by simp
  from Write_decides_on_counters_before_the_call [OF re v wr1 wr2, of 0 0] a0 a1
  have first: "n = 11 \<and> e = None \<and> handle ws1 = Some 0 \<and> length (files w1) = 1
          \<and> content (files w1 ! 0) = ?p \<and> numLines ws1 = 1 \<and> numBytes ws1 = 11
          \<and> is_closed (files w2 ! 0) \<and> content (files w2 ! 0) = ?p"
    by auto
  from Write_decides_on_counters_before_the_call [OF re1 v1 wr2 wr3, of 0 1] a1 a2
  have second: "n2 = 1 \<and> e2 = None \<and> handle ws2 = Some 1 \<and> length (files w2) = 2
          \<and> content (files w2 ! 1) = [12] \<and> numLines ws2 = 1 \<and> numBytes ws2 = 1
          \<and> handle ws3 = Some 1 \<and> length (files w3) = 2"
    by auto
  from Write_decides_on_counters_before_the_call [OF re2 v2 wr3 wr4, of 1 1] a2
  have third: "n3 = 2 \<and> e3 = None \<and> handle ws3 = Some 1 \<and> length (files w3) = 2
          \<and> content (files w3 ! 1) = [12, 13, 14] \<and> numLines ws3 = 2 \<and> numBytes ws3 = 3"
    by auto
  let ?wf = "fresh_world\<lparr>create_faults := [Some EACCES]\<rparr>"
  have vf: "\<And>h. handle ?ws = Some h \<Longrightarrow> h < length (files ?wf)"
    by (simp add: ByteSplitter_def)
  obtain nf ef wsf wf where wrf: "Write ?ws [1, 2, 3] ?wf = ((nf, ef), wsf, wf)"
    by (cases "Write ?ws [1, 2, 3] ?wf") auto
  obtain rg wsg wg where wrg: "Write wsf [] wf = (rg, wsg, wg)"
    by (cases "Write wsf [] wf") auto
  have af: "fst (Write_prepare ?ws ?wf) = Some (PathError EACCES)" "files ?wf = []"
    by (simp_all add: eval_defs)
  from Write_decides_on_counters_before_the_call [OF re vf wrf wrg, of 0 0] af
  have fourth: "nf = 0 \<and> ef = Some (PathError EACCES) \<and> map content (files wf) = []"
    by auto
  from re re1 re2 a0 a1 a2 first second third wr1 wr2 wr3 af fourth wrf show ?thesis
    by simp
qed

subsection \<open>C4: a limit of zero or less never rotates\<close>

text \<open>
  Claim C4. For every sink with \<open>Limit \<le> 0\<close> that has no file yet, and every list
  \<open>ps\<close> of payloads written in order: no call rotates, so at most one file is created
  whatever the number and the sizes of the payloads; and when there is at least one
  call and \<open>os.Create\<close> succeeds at the first, exactly one file has been created, the
  sink still holds it, it has not been closed, and (when no write fails) it contains
  all the payloads in order.
\<close>

theorem no_rotation_without_limit:
  assumes "sint (Limit ws) \<le> 0" and "handle ws = None" and "Writes ps ws w = (ws1, w1)"
  shows "length (files w1) \<le> Suc (length (files w))
       \<and> (ps \<noteq> [] \<and> fst (create ws w) = None \<longrightarrow>
            handle ws1 = Some (length (files w))
            \<and> length (files w1) = Suc (length (files w))
            \<and> \<not> is_closed (files w1 ! length (files w))
            \<and> (write_faults w = [] \<longrightarrow> content (files w1 ! length (files w)) = concat ps))"
proof -
  {
    assume ne: "ps \<noteq> []" and ok: "fst (create ws w) = None"
    then obtain p ps' where ps: "ps = p # ps'" by (cases ps) auto
    obtain r wsa wa where wr: "Write ws p w = (r, wsa, wa)"
      by (cases "Write ws p w") auto
    from wr ps assms(3) have rest: "Writes ps' wsa wa = (ws1, w1)" by simp
    have lim: "sint (Limit wsa) \<le> 0" using Write_Limit [OF wr] assms(1) by simp
    let ?k = "length (files w)"
    from Write_lazy_without_limit [OF assms(1,2) wr] ok
    have a: "handle wsa = Some ?k" "length (files wa) = Suc ?k"
      "\<not> is_closed (files wa ! ?k)" "content (files wa ! ?k) = take (fst r) p"
      "write_faults w = [] \<longrightarrow> fst r = length p \<and> write_faults wa = []"
      by auto
    from Writes_open_without_limit [OF lim a(1) _ a(3) rest] a ps
    have "handle ws1 = Some ?k \<and> length (files w1) = Suc ?k
            \<and> \<not> is_closed (files w1 ! ?k)
            \<and> (write_faults w = [] \<longrightarrow> content (files w1 ! ?k) = concat ps)"
      by auto
  }
  with Writes_at_most_one_file [OF assms] show ?thesis by blast
qed

text \<open>
  The witness: a byte sink of limit \<open>-1\<close> and four writes of 2, 0, 7 and 1 bytes: one
  file, open, holding the ten bytes.
\<close>

theorem no_rotation_without_limit_witness:
  "sint (Limit (ByteSplitter (- 1) ''/tmp/x'' ''log-'')) \<le> 0
   \<and> handle (ByteSplitter (- 1) ''/tmp/x'' ''log-'') = None
   \<and> fst (create (ByteSplitter (- 1) ''/tmp/x'' ''log-'') fresh_world) = None
   \<and> write_faults fresh_world = []
   \<and> (case Writes [[1, 2], [], [3, 4, 5, 6, 7, 8, 9], [10]]
             (ByteSplitter (- 1) ''/tmp/x'' ''log-'') fresh_world of
        (ws1, w1) \<Rightarrow>
          handle ws1 = Some 0 \<and> length (files w1) = 1 \<and> \<not> is_closed (files w1 ! 0)
          \<and> content (files w1 ! 0) = [1, 2, 3, 4, 5, 6, 7, 8, 9, 10])"
proof -
  let ?ws = "ByteSplitter (- 1) ''/tmp/x'' ''log-''"
  let ?ps = "[[1, 2], [], [3, 4, 5, 6, 7, 8, 9], [10]] :: byte list list"
  obtain ws1 w1 where s: "Writes ?ps ?ws fresh_world = (ws1, w1)"
    by force
  have a: "sint (Limit ?ws) \<le> 0" "handle ?ws = None"
    by (simp_all add: ByteSplitter_def)
  have b: "fst (create ?ws fresh_world) = None" "write_faults fresh_world = []"
    "length (files fresh_world) = 0"
    by (simp_all add: eval_defs)
  from no_rotation_without_limit [OF a s] a b s show ?thesis
    by simp
qed

subsection \<open>C5: CheckDir\<close>

text \<open>
  Claim C5 says that \<open>CheckDir\<close> returns \<open>ErrNotADir\<close> when access is denied. The
  code at a path for which \<open>os.Stat\<close> fails with \<open>EACCES\<close>: it panics.
\<close>

theorem CheckDir_panics_on_permission_error:
  "CheckDir (\<lambda>path. if path = ''/root/private'' then Inl EACCES
                     else if path = ''/tmp'' then Inr \<lparr>IsDir = True\<rparr>
                     else if path = ''/etc/passwd'' then Inr \<lparr>IsDir = False\<rparr>
                     else Inl ENOENT) ''/root/private'' = Panic"
  by (simp add: CheckDir_def os_Stat_def os_IsNotExist_def Clean_def is_rooted_def clean_step_def)

subsection \<open>C6: Close on a sink without a handle\<close>

text \<open>
  Claim C6 counts a sink that was explicitly closed among the sinks without a handle.
  Such a sink keeps its handle (see C1), so a second \<open>Close\<close> reaches
  \<open>(*os.File).Close\<close> again and returns its error \<open>os.ErrClosed\<close>, not
  \<open>ErrNotAFile\<close>.
\<close>

theorem Close_on_closed_sink_counterexample:
  "case Writes [[97]] (LineSplitter 3 ''/tmp/x'' ''log-'') fresh_world of
     (ws, w) \<Rightarrow>
       (case Close ws w of
          (r, ws1, w1) \<Rightarrow>
            r = None \<and> is_closed (files w1 ! 0)
            \<and> (case Close ws1 w1 of (r2, ws2, w2) \<Rightarrow> r2 = Some ErrClosed))"
  by (simp add: eval_defs)

text \<open>
  Claim C6, amended. For every sink a caller can reach whose handle is nil (a sink fresh
  from a constructor, or one whose last creation failed), \<open>Close\<close> returns
  \<open>ErrNotAFile\<close> and changes neither the sink nor the world; a following \<open>Write\<close>
  creates the file lazily and, when neither \<open>os.Create\<close> nor the write fails,
  writes the whole payload into it and returns its length with a nil error.
\<close>

theorem Close_without_handle:
  assumes "reachable ws" and "handle ws = None"
    and "Close ws w = (r, ws1, w1)" and "Write ws1 p w1 = (r2, ws2, w2)"
  shows "r = Some ErrNotAFile \<and> ws1 = ws \<and> w1 = w
       \<and> (fst (create ws w) = None \<and> fst (next_reply None (write_faults w)) = None \<longrightarrow>
            r2 = (length p, None) \<and> handle ws2 = Some (length (files w))
            \<and> length (files w2) = Suc (length (files w))
            \<and> content (files w2 ! length (files w)) = p)"
proof -
  from assms(2,3) have c: "r = Some ErrNotAFile" "ws1 = ws" "w1 = w"
    by (auto dest!: Close_cases)
  have z: "numLines ws = 0 \<and> numBytes ws = 0"
    using reachable_counters [OF assms(1,2)] .
  {
    assume ok: "fst (create ws w) = None" and wok: "fst (next_reply None (write_faults w)) = None"
    obtain wsc wc where cr: "create ws w = (None, wsc, wc)"
      using ok by (cases "create ws w") auto
    note cw = create_ok_world [OF cr]
    from create_fields [OF cr] z have "\<not> rotation_due wsc"
      by (simp add: rotation_due_zero)
    with cr assms(2) have pr: "Write_prepare ws w = (None, wsc, wc)"
      by (simp add: Write_prepare_def)
    have fw: "file_Write (handle wsc) p wc =
        ((length p, None),
         wc\<lparr>files := (files wc)[length (files w) :=
               (files wc ! length (files w))\<lparr>content := content (files wc ! length (files w)) @ p\<rparr>],
            write_faults := snd (next_reply None (write_faults wc))\<rparr>)"
      using cw wok by (simp add: file_Write_open)
    from assms(4) c pr fw cw
    have "r2 = (length p, None) \<and> handle ws2 = Some (length (files w))
            \<and> length (files w2) = Suc (length (files w))
            \<and> content (files w2 ! length (files w)) = p"
      by (auto simp: Write_def)
  }
  with c show ?thesis by blast
qed

theorem Close_without_handle_witness:
  "reachable (LineSplitter 3 ''/tmp/x'' ''log-'')
   \<and> handle (LineSplitter 3 ''/tmp/x'' ''log-'') = None
   \<and> fst (create (LineSplitter 3 ''/tmp/x'' ''log-'') fresh_world) = None
   \<and> fst (next_reply None (write_faults fresh_world)) = None
   \<and> (case Close (LineSplitter 3 ''/tmp/x'' ''log-'') fresh_world of
        (r, ws1, w1) \<Rightarrow>
          r = Some ErrNotAFile \<and> ws1 = LineSplitter 3 ''/tmp/x'' ''log-'' \<and> w1 = fresh_world
          \<and> (case Write ws1 [97, 98] w1 of
               (r2, ws2, w2) \<Rightarrow>
                 r2 = (2, None) \<and> handle ws2 = Some 0 \<and> length (files w2) = 1
                 \<and> content (files w2 ! 0) = [97, 98]))"
proof -
  let ?ws = "LineSplitter 3 ''/tmp/x'' ''log-''"
  obtain r ws1 w1 where c: "Close ?ws fresh_world = (r, ws1, w1)"
    by (cases "Close ?ws fresh_world") auto
  obtain r2 ws2 w2 where wr: "Write ws1 [97, 98] w1 = (r2, ws2, w2)"
    by (cases "Write ws1 [97, 98] w1") auto
  have re: "reachable ?ws" by (rule reach_LineSplitter)
  have h: "handle ?ws = None" by (simp add: LineSplitter_def)
  have ok: "fst (create ?ws fresh_world) = None"
    "fst (next_reply None (write_faults fresh_world)) = None"
    "length (files fresh_world) = 0"
    by (simp_all add: eval_defs)
  from Close_without_handle [OF re h c wr] re h ok c wr show ?thesis
    by simp
qed

subsection \<open>C7: a failed creation\<close>

text \<open>
  Claim C7. For every call of \<open>Write\<close> on a sink a caller can reach, in which the
  creation of the file fails: when it is the lazy creation of a sink without handle
  (first conjunct), or the creation that follows the close of a rotation (second
  conjunct), \<open>Write\<close> returns \<open>(0, err)\<close> with the error \<open>err\<close> of \<open>os.Create\<close>,
  writes no byte (the table of files, respectively the content of every file, is as
  before the call) and leaves the sink without a handle, so that the preparation of the
  next \<open>Write\<close> is again a call of \<open>create\<close>.
\<close>

theorem Write_returns_creation_error:
  assumes "reachable ws" and "Write ws p w = (r, ws4, w4)"
  shows "(handle ws = None \<and> create ws w = (Some err, ws1, w1) \<longrightarrow>
            r = (0, Some err) \<and> ws4 = ws1 \<and> w4 = w1 \<and> handle ws4 = None
            \<and> files w4 = files w \<and> Write_prepare ws4 w4 = create ws4 w4)
       \<and> (handle ws \<noteq> None \<and> rotation_due ws \<and> Close ws w = (c, ws2, w2)
            \<and> create ws2 w2 = (Some err, ws3, w3) \<longrightarrow>
            r = (0, Some err) \<and> ws4 = ws3 \<and> w4 = w3 \<and> handle ws4 = None
            \<and> map content (files w4) = map content (files w)
            \<and> Write_prepare ws4 w4 = create ws4 w4)"
proof -
  have re: "reachable ws4" using assms by (rule reach_Write)
  {
    assume h: "handle ws = None" and cr: "create ws w = (Some err, ws1, w1)"
    from Write_prepare_lazy [OF assms(1) h] cr have "Write_prepare ws w = (Some err, ws1, w1)"
      by simp
    with assms(2) have a: "r = (0, Some err)" "ws4 = ws1" "w4 = w1"
      by (auto simp: Write_def)
    from create_cases [OF cr] have b: "handle ws1 = None" "files w1 = files w"
      by auto
    from re a b have "Write_prepare ws4 w4 = create ws4 w4"
      by (simp add: Write_prepare_lazy)
    with a b have "r = (0, Some err) \<and> ws4 = ws1 \<and> w4 = w1 \<and> handle ws4 = None
            \<and> files w4 = files w \<and> Write_prepare ws4 w4 = create ws4 w4"
      by simp
  }
  moreover
  {
    assume h: "handle ws \<noteq> None" and rd: "rotation_due ws"
      and cl: "Close ws w = (c, ws2, w2)" and cr: "create ws2 w2 = (Some err, ws3, w3)"
    from h rd cl cr have "Write_prepare ws w = (Some err, ws3, w3)"
      by (auto simp: Write_prepare_def)
    with assms(2) have a: "r = (0, Some err)" "ws4 = ws3" "w4 = w3"
      by (auto simp: Write_def)
    from create_cases [OF cr] have b: "handle ws3 = None" "files w3 = files w2"
      by auto
    from cl h have "map content (files w2) = map content (files w)"
      by (auto dest!: Close_cases dest: file_Close_files)
    moreover from re a b have "Write_prepare ws4 w4 = create ws4 w4"
      by (simp add: Write_prepare_lazy)
    ultimately have "r = (0, Some err) \<and> ws4 = ws3 \<and> w4 = w3 \<and> handle ws4 = None
            \<and> map content (files w4) = map content (files w)
            \<and> Write_prepare ws4 w4 = create ws4 w4"
      using a b by simp
  }
  ultimately show ?thesis by blast
qed

text \<open>
  The witness, twice: a fresh sink whose first \<open>os.Create\<close> fails with \<open>EACCES\<close>, and
  a line sink of limit 3 after three writes, whose rotation closes the file and then
  fails to create the next one with \<open>ENOSPC\<close>.
\<close>

theorem Write_returns_creation_error_witness:
  "reachable (LineSplitter 3 ''/tmp/x'' ''log-'')
   \<and> handle (LineSplitter 3 ''/tmp/x'' ''log-'') = None
   \<and> fst (create (LineSplitter 3 ''/tmp/x'' ''log-'')
             (fresh_world\<lparr>create_faults := [Some EACCES]\<rparr>)) = Some (PathError EACCES)
   \<and> (case Write (LineSplitter 3 ''/tmp/x'' ''log-'') [97]
             (fresh_world\<lparr>create_faults := [Some EACCES]\<rparr>) of
        (r, ws4, w4) \<Rightarrow>
          r = (0, Some (PathError EACCES)) \<and> handle ws4 = None \<and> files w4 = []
          \<and> Write_prepare ws4 w4 = create ws4 w4)
   \<and> (case Writes [[1], [2], [3]] (LineSplitter 3 ''/tmp/x'' ''log-'')
             (fresh_world\<lparr>create_faults := [None, Some ENOSPC]\<rparr>) of
        (ws, w) \<Rightarrow>
          reachable ws \<and> handle ws = Some 0 \<and> rotation_due ws
          \<and> (case Close ws w of
               (c, ws2, w2) \<Rightarrow> fst (create ws2 w2) = Some (PathError ENOSPC))
          \<and> (case Write ws [4] w of
               (r, ws4, w4) \<Rightarrow>
                 r = (0, Some (PathError ENOSPC)) \<and> handle ws4 = None
                 \<and> map content (files w4) = [[1, 2, 3]]
                 \<and> Write_prepare ws4 w4 = create ws4 w4))"
proof -
  let ?ws = "LineSplitter 3 ''/tmp/x'' ''log-''"
  let ?wa = "fresh_world\<lparr>create_faults := [Some EACCES]\<rparr>"
  let ?wb = "fresh_world\<lparr>create_faults := [None, Some ENOSPC]\<rparr>"
  have re: "reachable ?ws" by (rule reach_LineSplitter)
  have h: "handle ?ws = None" by (simp add: LineSplitter_def)
  obtain ws1 w1 where cr: "create ?ws ?wa = (Some (PathError EACCES), ws1, w1)"
    by (cases "create ?ws ?wa") (auto simp: eval_defs)
  obtain r ws4 w4 where wr: "Write ?ws [97] ?wa = (r, ws4, w4)"
    by (cases "Write ?ws [97] ?wa") auto
  have f: "files ?wa = []" by (simp add: fresh_world_def)
  from Write_returns_creation_error [OF re wr, of "PathError EACCES" ws1 w1] h cr wr f
  have first: "case Write ?ws [97] ?wa of
        (r, ws4, w4) \<Rightarrow>
          r = (0, Some (PathError EACCES)) \<and> handle ws4 = None \<and> files w4 = []
          \<and> Write_prepare ws4 w4 = create ws4 w4"
    by auto
  obtain ws w where s: "Writes [[1], [2], [3]] ?ws ?wb = (ws, w)"
    by force
  have re2: "reachable ws" using re s by (rule reachable_Writes)
  have st: "handle ws = Some 0" "rotation_due ws" "map content (files w) = [[1, 2, 3]]"
    using s by (auto simp: eval_defs)
  obtain c ws2 w2 where cl: "Close ws w = (c, ws2, w2)"
    by (cases "Close ws w") auto
  obtain ws3 w3 where cr2: "create ws2 w2 = (Some (PathError ENOSPC), ws3, w3)"
    using s cl by (cases "create ws2 w2") (auto simp: eval_defs)
  obtain r' ws4' w4' where wr2: "Write ws [4] w = (r', ws4', w4')"
    by (cases "Write ws [4] w") auto
  from Write_returns_creation_error [OF re2 wr2, of "PathError ENOSPC" _ _ c ws2 w2 ws3 w3]
    st cl cr2 wr2
  have second: "r' = (0, Some (PathError ENOSPC)) \<and> handle ws4' = None
                 \<and> map content (files w4') = [[1, 2, 3]]
                 \<and> Write_prepare ws4' w4' = create ws4' w4'"
    by auto
  from re h cr first s re2 st cl cr2 wr2 second show ?thesis
    by simp
qed

subsection \<open>C8: the counters and the result of a write that reaches the file\<close>

text \<open>
  Claim C8. For every call of \<open>Write\<close> that reaches the underlying write (the error
  tested on line 84 is nil), whether that write succeeds, fails or is partial:
  \<open>numLines\<close> is incremented by exactly 1 and \<open>numBytes\<close> by exactly the number
  \<open>n\<close> of bytes written (in Go's 64-bit \<open>int\<close>), and the pair \<open>(n, e)\<close> of the
  underlying write is returned as it is. The counters that are incremented are those
  of the caller when no rotation was due, and zero after a rotation; \<open>n\<close> is the
  number of bytes of \<open>p\<close> by which the file has grown.
\<close>

theorem Write_counts_and_returns_underlying_result:
  assumes "Write_prepare ws w = (None, ws3, w3)"
    and "file_Write (handle ws3) p w3 = ((n, e), w4)"
    and "Write ws p w = (r, ws4, w5)"
  shows "r = (n, e) \<and> w5 = w4
       \<and> numLines ws4 = numLines ws3 + 1
       \<and> numBytes ws4 = numBytes ws3 + word_of_nat n
       \<and> handle ws4 = handle ws3 \<and> handle ws3 \<noteq> None
       \<and> (\<not> rotation_due ws \<longrightarrow>
            numLines ws4 = numLines ws + 1 \<and> numBytes ws4 = numBytes ws + word_of_nat n)
       \<and> (rotation_due ws \<and> handle ws \<noteq> None \<longrightarrow>
            numLines ws4 = 1 \<and> numBytes ws4 = word_of_nat n)
       \<and> n \<le> length p
       \<and> (handle ws3 = Some h \<and> h < length (files w3) \<longrightarrow>
            content (files w5 ! h) = content (files w3 ! h) @ take n p)"
proof -
  from assms have w: "r = (n, e)" "w5 = w4"
    "ws4 = ws3\<lparr>numLines := numLines ws3 + 1, numBytes := numBytes ws3 + word_of_nat n\<rparr>"
    by (auto simp: Write_def)
  moreover from assms(1) have "handle ws3 \<noteq> None"
    by (rule Write_prepare_ok_handle)
  moreover note Write_prepare_counters [OF assms(1)]
  moreover from file_Write_files [OF assms(2)] have "n \<le> length p"
    by simp
  moreover have "handle ws3 = Some h \<and> h < length (files w3) \<longrightarrow>
            content (files w4 ! h) = content (files w3 ! h) @ take n p"
    using assms(2) by (auto dest: file_Write_content)
  ultimately show ?thesis by simp
qed

text \<open>
  The witness: a write of six bytes of which the system call takes four before it fails
  with \<open>ENOSPC\<close>; the call returns \<open>(4, ENOSPC)\<close>, one write and four bytes are
  counted.
\<close>

theorem Write_counts_and_returns_underlying_result_witness:
  "case Write_prepare (ByteSplitter 10 ''/tmp/x'' ''log-'')
          (fresh_world\<lparr>write_faults := [Some (4, ENOSPC)]\<rparr>) of
     (e, ws3, w3) \<Rightarrow>
       e = None
       \<and> fst (file_Write (handle ws3) [1, 2, 3, 4, 5, 6] w3) = (4, Some (PathError ENOSPC))
       \<and> (case Write (ByteSplitter 10 ''/tmp/x'' ''log-'') [1, 2, 3, 4, 5, 6]
                 (fresh_world\<lparr>write_faults := [Some (4, ENOSPC)]\<rparr>) of
            (r, ws4, w5) \<Rightarrow>
              r = (4, Some (PathError ENOSPC)) \<and> numLines ws4 = 1 \<and> numBytes ws4 = 4
              \<and> content (files w5 ! 0) = [1, 2, 3, 4])"
proof -
  let ?ws = "ByteSplitter 10 ''/tmp/x'' ''log-''"
  let ?w = "fresh_world\<lparr>write_faults := [Some (4, ENOSPC)]\<rparr>"
  obtain e ws3 w3 where pr: "Write_prepare ?ws ?w = (e, ws3, w3)"
    by (cases "Write_prepare ?ws ?w") auto
  obtain n ew w4 where fw: "file_Write (handle ws3) [1, 2, 3, 4, 5, 6] w3 = ((n, ew), w4)"
    by (cases "file_Write (handle ws3) [1, 2, 3, 4, 5, 6] w3") auto
  obtain r ws4 w5 where wr: "Write ?ws [1, 2, 3, 4, 5, 6] ?w = (r, ws4, w5)"
    by (cases "Write ?ws [1, 2, 3, 4, 5, 6] ?w") auto
  have e: "e = None" using pr by (auto simp: eval_defs)
  have n: "n = 4" "ew = Some (PathError ENOSPC)" "numLines ws3 = 0" "numBytes ws3 = 0"
    "content (files w4 ! 0) = [1, 2, 3, 4]"
    using pr fw by (auto simp: eval_defs)
  from Write_counts_and_returns_underlying_result [OF pr [unfolded e] fw wr] pr fw wr e n
  show ?thesis by simp
qed

subsection \<open>C9: the constructors\<close>

text \<open>
  Claim C9 says that the constructors collapse a bare \<open>.\<close> to the empty string. They
  store the result of \<open>filepath.Clean\<close>, which is \<open>.\<close> for \<open>.\<close> and for the empty
  string.
\<close>

theorem constructors_keep_dot_counterexample:
  "Dir (LineSplitter 3 ''.'' ''.'') = ''.'' \<and> Prefix (LineSplitter 3 ''.'' ''.'') = ''.''
   \<and> Dir (ByteSplitter 3 [] []) = ''.'' \<and> Prefix (ByteSplitter 3 [] []) = ''.''"
  by (simp add: eval_defs)

text \<open>
  Claim C9, amended. For every limit, directory and prefix, both constructors store
  \<open>filepath.Clean\<close> of the directory and of the prefix, which normalises the path and
  is never empty (\<open>.\<close> for the empty path and for \<open>.\<close>); the sink has zero counters
  and no handle, and being values the constructors create no file. It is \<open>create\<close>,
  at the first file, that replaces a directory or a prefix \<open>.\<close> by the empty string.
\<close>

theorem constructors_clean_and_create_drops_dot:
  "LineSplitter limit dir prefix =
     \<lparr>Limit = limit, Dir = Clean dir, Prefix = Clean prefix, Bytes = False,
      numBytes = 0, numLines = 0, handle = None\<rparr>
   \<and> ByteSplitter limit dir prefix =
     \<lparr>Limit = limit, Dir = Clean dir, Prefix = Clean prefix, Bytes = True,
      numBytes = 0, numLines = 0, handle = None\<rparr>
   \<and> Clean dir \<noteq> [] \<and> Clean prefix \<noteq> []
   \<and> Clean [] = ''.'' \<and> Clean ''.'' = ''.''
   \<and> Dir (fst (snd (create (LineSplitter limit dir prefix) w)))
       = (if Clean dir = ''.'' then [] else Clean dir)
   \<and> Prefix (fst (snd (create (LineSplitter limit dir prefix) w)))
       = (if Clean prefix = ''.'' then [] else Clean prefix)
   \<and> Dir (fst (snd (create (ByteSplitter limit dir prefix) w)))
       = (if Clean dir = ''.'' then [] else Clean dir)
   \<and> Prefix (fst (snd (create (ByteSplitter limit dir prefix) w)))
       = (if Clean prefix = ''.'' then [] else Clean prefix)"
proof -
  have a: "Clean [] = ''.''" "Clean ''.'' = ''.''"
    by (simp_all add: Clean_def is_rooted_def clean_step_def)
  have b: "Dir (fst (snd (create ws w))) = (if Dir ws = ''.'' then [] else Dir ws)
     \<and> Prefix (fst (snd (create ws w))) = (if Prefix ws = ''.'' then [] else Prefix ws)" for ws
    using create_Dir_Prefix [of ws w "fst (create ws w)" "fst (snd (create ws w))"
        "snd (snd (create ws w))"]
    by simp
  show ?thesis
    using a b [of "LineSplitter limit dir prefix"] b [of "ByteSplitter limit dir prefix"]
    by (simp add: LineSplitter_def ByteSplitter_def Clean_not_empty)
qed

subsection \<open>C10: Close resets the counters before it closes the file\<close>

text \<open>
  Claim C10. For every sink with an open handle, \<open>Close\<close> resets \<open>numLines\<close> and
  \<open>numBytes\<close> to 0 before it attempts the underlying close, so the counters are zero
  whatever the underlying close returns, an error included: the result \<open>r\<close> below is
  the result of \<open>(*os.File).Close\<close> and is not constrained.
\<close>

theorem Close_resets_counters_before_closing:
  assumes "handle ws = Some h" and "Close ws w = (r, ws1, w1)"
  shows "numLines ws1 = 0 \<and> numBytes ws1 = 0 \<and> file_Close (Some h) w = (r, w1)"
  using assms by (auto dest!: Close_cases)

text \<open>
  The witness: two writes of three bytes in all, then a \<open>Close\<close> whose system call fails
  with \<open>EIO\<close>. The error is returned and the counters are zero.
\<close>

theorem Close_resets_counters_before_closing_witness:
  "case Writes [[1, 2], [3]] (LineSplitter 3 ''/tmp/x'' ''log-'')
          (fresh_world\<lparr>close_faults := [Some EIO]\<rparr>) of
     (ws, w) \<Rightarrow>
       handle ws = Some 0 \<and> numLines ws = 2 \<and> numBytes ws = 3
       \<and> (case Close ws w of
            (r, ws1, w1) \<Rightarrow> r = Some (PathError EIO) \<and> numLines ws1 = 0 \<and> numBytes ws1 = 0)"
proof -
  obtain ws w where s: "Writes [[1, 2], [3]] (LineSplitter 3 ''/tmp/x'' ''log-'')
          (fresh_world\<lparr>close_faults := [Some EIO]\<rparr>) = (ws, w)"
    by force
  obtain r ws1 w1 where c: "Close ws w = (r, ws1, w1)"
    by (cases "Close ws w") auto
  have h: "handle ws = Some 0" and n: "numLines ws = 2 \<and> numBytes ws = 3"
    using s by (auto simp: eval_defs)
  have r: "r = Some (PathError EIO)"
    using s c by (auto simp: eval_defs)
  from Close_resets_counters_before_closing [OF h c] s c h n r show ?thesis
    by simp
qed

end
